theory Spec2Isabelle
  imports Complex_Main
begin

section \<open>The economy model of \<open>complex_economies/model.py\<close>\<close>

text \<open>
  A shallow embedding of the class \<open>ComplexEconomy\<close>. Every economic scalar is a
  \<open>Decimal\<close> in the source (\<open>d(0)\<close>); the embedding takes them as exact rationals,
  so the rounding of \<open>Decimal\<close> to its context precision is not part of the model.
  Methods that can raise return \<open>error + 'a\<close>, with \<open>Inl\<close> the exception. An exception
  leaves the fields assigned before it in place in the source; the model returns the
  exception alone, so statements about a failed call say which exception it is and
  nothing about the state it leaves.
\<close>

subsection \<open>Data\<close>

text \<open>The two group names of \<open>ComplexEconomy.groups\<close>.\<close>

datatype group = consumption_firm | capital_firm

text \<open>
  The exceptions the modelled code can raise. \<open>ZeroDivisionError\<close> is the division of
  two Python integers by zero (\<open>sum([]) / len([])\<close>, \<open>1 / 0\<close>); \<open>DivisionByZero\<close> and
  \<open>InvalidOperation\<close> are the two signals of a \<open>Decimal\<close> division whose divisor is zero
  (\<open>x / 0\<close> with \<open>x \<noteq> 0\<close>, and \<open>0 / 0\<close>); \<open>IndexError\<close> is raised by \<open>random.choice\<close>
  on an empty sequence and \<open>ValueError\<close> by \<open>max\<close> on an empty list.
\<close>

datatype error = ZeroDivisionError | DivisionByZero | InvalidOperation | IndexError | ValueError

text \<open>The \<open>machine\<close> sub-entity of a firm, with the two fields the model touches.\<close>

record machine =
  labour_productivity_coefficient :: rat
  price :: rat

text \<open>
  A firm agent, with the fields that \<open>model.py\<close> reads or writes. \<open>capital_stock\<close> is
  \<open>None\<close> where the source passes \<open>None\<close> (capital-good firms).
\<close>

record firm =
  unique_id :: int
  group :: group
  bankrupt :: bool
  liquid_assets :: rat
  market_share :: rat
  capital_stock :: "rat option"
  supplier :: "nat option"
  machine :: machine
  price :: rat
  competitiveness :: rat
  labour_demand :: rat
  expansion_investment :: rat
  replacement_investment :: rat
  production :: rat
  inventory :: rat
  sales :: rat
  output' :: rat

text \<open>
  The keys of the \<open>parameters\<close> mapping that \<open>model.py\<close> computes with; the three
  weights are the entries of \<open>parameters['wage_setting']\<close>. A missing key (\<open>KeyError\<close>)
  is excluded by the record type. The firm counts are Python integers.
\<close>

record parameters =
  social_policy :: string
  n_consumption_firms :: int
  n_capital_firms :: int
  labour_supply_growth :: rat
  cpi_weight :: rat
  avg_lp_weight :: rat
  unemployment_weight :: rat
  wage_share :: rat
  fix_supplier :: bool

text \<open>
  The model object. \<open>agents\<close> is \<open>self.schedule.agents\<close>, in insertion order; a Python
  reference to an agent object is its position in this list (\<open>ref\<close>), so that setting
  a field through one reference is seen through every other. \<open>random\<close> is the sequence
  of raw draws of the seeded generator \<open>self.random\<close> and \<open>draws\<close> counts the draws
  taken so far. The parameters that \<open>model.py\<close> only stores are left out.
\<close>

type_synonym ref = nat

record complex_economy =
  agents :: "firm list"
  random :: "nat \<Rightarrow> nat"
  draws :: nat
  social_policy :: string
  labour_supply_growth :: rat
  cpi_weight :: rat
  avg_lp_weight :: rat
  unemployment_weight :: rat
  wage_share :: rat
  max_capital_labour_share :: rat
  market_wage :: rat
  cpi :: rat
  avg_labour_prod :: rat
  labour_supply :: rat
  employment :: rat
  consumption :: rat
  unemployment_rate :: rat
  avg_cap_price :: rat
  avg_comp_competitiveness :: rat
  avg_cap_competitiveness :: rat
  average_unit_labour_cost :: rat
  labour_demand :: rat
  unemployment :: rat
  delta_cpi :: rat
  delta_productivity :: rat
  delta_unemployment :: rat
  expansion_investment :: rat
  replacement_investment :: rat
  agg_inventories :: rat
  agg_production :: rat

subsection \<open>Arithmetic of the source\<close>

text \<open>\<open>a / b\<close> on decimals: a zero divisor raises, \<open>0 / 0\<close> as \<open>InvalidOperation\<close>.\<close>

definition dec_div :: "rat \<Rightarrow> rat \<Rightarrow> error + rat" where
  "dec_div a b =
     (if b = 0 then (if a = 0 then Inl InvalidOperation else Inl DivisionByZero)
      else Inr (a / b))"

text \<open>
  \<open>sum(xs) / len(xs)\<close>: on the empty list both operands are the integers \<open>0\<close>, and the
  division raises \<open>ZeroDivisionError\<close>; otherwise the divisor is a positive integer.
\<close>

definition mean :: "rat list \<Rightarrow> error + rat" where
  "mean xs = (if xs = [] then Inl ZeroDivisionError else Inr (sum_list xs / of_nat (length xs)))"

text \<open>
  \<open>round(x, 2)\<close> on a decimal quantizes to two places with the context's rounding,
  which is round-half-even.
\<close>

definition round_half_even :: "rat \<Rightarrow> int" where
  "round_half_even q =
     (let f = \<lfloor>q\<rfloor>; r = q - of_int f
      in if r < 1 / 2 then f
         else if 1 / 2 < r then f + 1
         else if even f then f else f + 1)"

definition round2 :: "rat \<Rightarrow> rat" where
  "round2 x = of_int (round_half_even (x * 100)) / 100"

subsection \<open>Group accessor\<close>

text \<open>
  \<open>get_group\<close> returns references to the agents of a group, without the bankrupt ones
  unless \<open>include_bankrupt\<close> is set. \<open>deref\<close> reads the objects behind references.
\<close>

definition get_group :: "complex_economy \<Rightarrow> group \<Rightarrow> bool \<Rightarrow> ref list" where
  "get_group m g include_bankrupt =
     (let firms = filter (\<lambda>a. group (agents m ! a) = g) [0..<length (agents m)]
      in if include_bankrupt then firms
         else filter (\<lambda>f. \<not> bankrupt (agents m ! f)) firms)"

definition deref :: "complex_economy \<Rightarrow> ref list \<Rightarrow> firm list" where
  "deref m rs = map (\<lambda>r. agents m ! r) rs"

subsection \<open>Employment and consumption\<close>

definition update_employment :: "complex_economy \<Rightarrow> error + complex_economy" where
  "update_employment m =
     (let m1 = m\<lparr>employment := min (complex_economy.labour_demand m) (labour_supply m)\<rparr>;
          m2 = m1\<lparr>unemployment := max 0 (labour_supply m1 - employment m1)\<rparr>
      in case dec_div (unemployment m2) (labour_supply m2) of
           Inl e \<Rightarrow> Inl e
         | Inr unemployment_rate' \<Rightarrow>
             (let delta_unemployment' = unemployment_rate' - unemployment_rate m2
              in Inr (m2\<lparr>unemployment_rate := unemployment_rate',
                         delta_unemployment := delta_unemployment'\<rparr>)))"

definition compute_consumption :: "complex_economy \<Rightarrow> rat" where
  "compute_consumption m =
     (let household_consumption = market_wage m * employment m;
          government_consumption =
            (if social_policy m = ''welfare'' then wage_share m * unemployment m
             else wage_share m * market_wage m * labour_supply m)
      in household_consumption + government_consumption)"


subsection \<open>Aggregation over the groups\<close>

definition compute_gdp :: "complex_economy \<Rightarrow> rat" where
  "compute_gdp m =
     (let consumption_firms = deref m (get_group m consumption_firm False);
          capital_firms = deref m (get_group m capital_firm False)
      in sum_list (map (\<lambda>f. sales f * firm.price f) consumption_firms)
         + sum_list (map (\<lambda>f. output' f * firm.price f) capital_firms))"

definition investment :: "complex_economy \<Rightarrow> rat" where
  "investment m =
     complex_economy.expansion_investment m + complex_economy.replacement_investment m"

definition max_capital_labour :: "complex_economy \<Rightarrow> rat" where
  "max_capital_labour m = max_capital_labour_share m * labour_supply m"

definition capital_labour_demand :: "complex_economy \<Rightarrow> rat" where
  "capital_labour_demand m =
     (let capital_firms = deref m (get_group m capital_firm False)
      in sum_list (map firm.labour_demand capital_firms))"

definition compute_average_price :: "complex_economy \<Rightarrow> group \<Rightarrow> bool \<Rightarrow> error + rat" where
  "compute_average_price m g weighted =
     (let firms = deref m (get_group m g False)
      in if \<not> weighted then (let prices = map firm.price firms in mean prices)
         else Inr (sum_list (map (\<lambda>f. market_share f * firm.price f) firms)))"

definition update_average_prices :: "complex_economy \<Rightarrow> error + complex_economy" where
  "update_average_prices m =
     (case compute_average_price m consumption_firm False of
        Inl e \<Rightarrow> Inl e
      | Inr cpi' \<Rightarrow>
          (case dec_div (cpi' - cpi m) (cpi m) of
             Inl e \<Rightarrow> Inl e
           | Inr delta \<Rightarrow>
               (let m1 = m\<lparr>delta_cpi := delta\<rparr>;
                    m2 = m1\<lparr>cpi := cpi'\<rparr>
                in case compute_average_price m2 capital_firm False of
                     Inl e \<Rightarrow> Inl e
                   | Inr p \<Rightarrow> Inr (m2\<lparr>avg_cap_price := p\<rparr>))))"

text \<open>
  \<open>compute_unit_labour_cost\<close> is a method of the machine entity, outside this module;
  it is a parameter here.
\<close>

definition update_avg_ulc ::
  "(machine \<Rightarrow> complex_economy \<Rightarrow> rat) \<Rightarrow> complex_economy \<Rightarrow> error + complex_economy" where
  "update_avg_ulc compute_unit_labour_cost m =
     (let capital_firms = deref m (get_group m capital_firm False);
          lpcs = map (\<lambda>a. compute_unit_labour_cost (machine a) m) capital_firms
      in case mean lpcs of
           Inl e \<Rightarrow> Inl e
         | Inr v \<Rightarrow> Inr (m\<lparr>average_unit_labour_cost := v\<rparr>))"

definition update_average_labour_productivity :: "complex_economy \<Rightarrow> error + complex_economy" where
  "update_average_labour_productivity m =
     (let firms = deref m (get_group m capital_firm False)
      in case mean (map (\<lambda>f. labour_productivity_coefficient (machine f)) firms) of
           Inl e \<Rightarrow> Inl e
         | Inr avg_labour_prod' \<Rightarrow>
             (case dec_div (avg_labour_prod' - avg_labour_prod m) (avg_labour_prod m) of
                Inl e \<Rightarrow> Inl e
              | Inr delta \<Rightarrow>
                  Inr (m\<lparr>delta_productivity := delta, avg_labour_prod := avg_labour_prod'\<rparr>)))"

definition compute_sector_competitiveness :: "complex_economy \<Rightarrow> group \<Rightarrow> rat" where
  "compute_sector_competitiveness m g =
     (let firms = deref m (get_group m g False);
          comp = sum_list (map (\<lambda>f. competitiveness f * market_share f) firms)
      in round2 comp)"

definition update_sector_competitiveness :: "complex_economy \<Rightarrow> complex_economy" where
  "update_sector_competitiveness m =
     (let m1 = m\<lparr>avg_comp_competitiveness := compute_sector_competitiveness m consumption_firm\<rparr>
      in m1\<lparr>avg_cap_competitiveness := compute_sector_competitiveness m1 capital_firm\<rparr>)"

definition aggregate_investment :: "complex_economy \<Rightarrow> complex_economy" where
  "aggregate_investment m =
     (let firms = deref m (get_group m consumption_firm False)
      in m\<lparr>complex_economy.expansion_investment :=
              sum_list (map firm.expansion_investment firms),
            complex_economy.replacement_investment :=
              sum_list (map firm.replacement_investment firms)\<rparr>)"

definition update_labour_supply :: "complex_economy \<Rightarrow> complex_economy" where
  "update_labour_supply m = m\<lparr>labour_supply := labour_supply m * (1 + labour_supply_growth m)\<rparr>"

text \<open>\<open>aggregate_labour_demand\<close> iterates \<open>self.schedule.agents\<close>, not a group.\<close>

definition aggregate_labour_demand :: "complex_economy \<Rightarrow> complex_economy" where
  "aggregate_labour_demand m =
     m\<lparr>complex_economy.labour_demand := sum_list (map firm.labour_demand (agents m))\<rparr>"

definition update_market_wage :: "complex_economy \<Rightarrow> complex_economy" where
  "update_market_wage m =
     (let psi1 = cpi_weight m; psi2 = avg_lp_weight m; psi3 = unemployment_weight m
      in m\<lparr>market_wage :=
              market_wage m
              * (1 + psi1 * delta_cpi m + psi2 * delta_productivity m
                 + psi3 * delta_unemployment m)\<rparr>)"

definition aggregate_production :: "complex_economy \<Rightarrow> complex_economy" where
  "aggregate_production m =
     (let firms = deref m (get_group m consumption_firm False)
      in m\<lparr>agg_production := sum_list (map production firms)\<rparr>)"

definition aggregate_inventories :: "complex_economy \<Rightarrow> complex_economy" where
  "aggregate_inventories m =
     (let firms = deref m (get_group m consumption_firm False)
      in m\<lparr>agg_inventories := sum_list (map inventory firms)\<rparr>)"

subsection \<open>Exit and entry\<close>

text \<open>
  \<open>self.random.choice(seq)\<close>: \<open>IndexError\<close> on the empty sequence, else the element at
  the next draw reduced below \<open>len(seq)\<close>; the generator advances by one draw.
\<close>

definition choice :: "complex_economy \<Rightarrow> 'a list \<Rightarrow> error + ('a \<times> complex_economy)" where
  "choice m seq =
     (if seq = [] then Inl IndexError
      else Inr (seq ! (random m (draws m) mod length seq), m\<lparr>draws := Suc (draws m)\<rparr>))"

text \<open>\<open>max(xs)\<close> of a list of integers.\<close>

definition py_max :: "int list \<Rightarrow> error + int" where
  "py_max xs = (case xs of [] \<Rightarrow> Inl ValueError | x # ys \<Rightarrow> Inr (fold max ys x))"

text \<open>
  Modelled from the spec: the firm classes \<open>ConsumptionGoodFirm\<close> and \<open>CapitalGoodFirm\<close>
  are defined in \<open>agents.py\<close>, which is not among the sources. By the spec a firm is
  tagged by its group, carries the identifier it is created with, is instantiated with
  the given \<open>liquid_assets\<close>, \<open>market_share\<close> and \<open>capital_stock\<close>, and enters the live
  population. What the constructors give every other field is not known: it is the
  parameter \<open>fresh\<close>, one template per group.
\<close>

definition constructor ::
  "(group \<Rightarrow> firm) \<Rightarrow> group \<Rightarrow> int \<Rightarrow> rat \<Rightarrow> rat \<Rightarrow> rat option \<Rightarrow> firm" where
  "constructor fresh g uid assets share stock =
     (fresh g)\<lparr>unique_id := uid, group := g, bankrupt := False, liquid_assets := assets,
               market_share := share, capital_stock := stock\<rparr>"

text \<open>
  The replacement built from the drawn survivor \<open>copy_firm\<close>: the constructor call with
  the survivor's \<open>liquid_assets\<close>, \<open>market_share\<close> and, in the consumption group, its
  \<open>capital_stock\<close>; in the capital group the two machine fields are then overwritten.
\<close>

definition replacement :: "(group \<Rightarrow> firm) \<Rightarrow> group \<Rightarrow> int \<Rightarrow> firm \<Rightarrow> firm" where
  "replacement fresh g next_id copy_firm =
     (let assets = liquid_assets copy_firm;
          share = market_share copy_firm;
          stock = (if g = consumption_firm then capital_stock copy_firm else None);
          new_firm = constructor fresh g next_id assets share stock
      in if g = capital_firm
         then new_firm\<lparr>machine := (machine new_firm)
                \<lparr>labour_productivity_coefficient :=
                   labour_productivity_coefficient (machine copy_firm),
                 machine.price := machine.price (machine copy_firm)\<rparr>\<rparr>
         else new_firm)"

text \<open>
  The loop \<open>for firm in dead_firms\<close>: the dead firm is marked through its reference, a
  survivor is drawn, the next identifier is one more than the largest identifier of
  all agents, and \<open>self.schedule.add\<close> appends the new agent to the scheduler's
  collection.
\<close>

fun replace_dead_firms ::
  "(group \<Rightarrow> firm) \<Rightarrow> group \<Rightarrow> ref list \<Rightarrow> ref list \<Rightarrow> complex_economy
   \<Rightarrow> error + complex_economy" where
  "replace_dead_firms fresh g alive [] m = Inr m"
| "replace_dead_firms fresh g alive (firm # dead) m =
     (let m1 = m\<lparr>agents := (agents m)[firm := (agents m ! firm)\<lparr>bankrupt := True\<rparr>]\<rparr>
      in case choice m1 alive of
           Inl e \<Rightarrow> Inl e
         | Inr (copy_firm, m2) \<Rightarrow>
             (case py_max (map unique_id (agents m2)) of
                Inl e \<Rightarrow> Inl e
              | Inr highest \<Rightarrow>
                  (let next_id = highest + 1;
                       new_firm = replacement fresh g next_id (agents m2 ! copy_firm)
                   in replace_dead_firms fresh g alive dead
                        (m2\<lparr>agents := agents m2 @ [new_firm]\<rparr>))))"

text \<open>The two lists that one pass of \<open>for group in self.groups\<close> computes first.\<close>

definition dead_firms :: "complex_economy \<Rightarrow> group \<Rightarrow> ref list" where
  "dead_firms m g =
     (let firms = get_group m g False
      in filter (\<lambda>f. market_share (agents m ! f) \<le> 0 \<or> liquid_assets (agents m ! f) < 0) firms)"

definition alive_firms :: "complex_economy \<Rightarrow> group \<Rightarrow> ref list" where
  "alive_firms m g =
     (let firms = get_group m g False
      in filter (\<lambda>f. f \<notin> set (dead_firms m g)) firms)"

text \<open>One pass of the loop \<open>for group in self.groups\<close>.\<close>

definition exit_group ::
  "(group \<Rightarrow> firm) \<Rightarrow> group \<Rightarrow> complex_economy \<Rightarrow> error + complex_economy" where
  "exit_group fresh g m = replace_dead_firms fresh g (alive_firms m g) (dead_firms m g) m"

fun exit_groups ::
  "(group \<Rightarrow> firm) \<Rightarrow> group list \<Rightarrow> complex_economy \<Rightarrow> error + complex_economy" where
  "exit_groups fresh [] m = Inr m"
| "exit_groups fresh (g # gs) m =
     (case exit_group fresh g m of Inl e \<Rightarrow> Inl e | Inr m' \<Rightarrow> exit_groups fresh gs m')"

definition groups :: "group list" where
  "groups = [consumption_firm, capital_firm]"

definition exit_and_entry :: "(group \<Rightarrow> firm) \<Rightarrow> complex_economy \<Rightarrow> error + complex_economy" where
  "exit_and_entry fresh m = exit_groups fresh groups m"

text \<open>
  The closed form of the loop, used to state what it computes. \<open>mark_bankrupt\<close> sets
  the flag of the agents behind the given references; \<open>top_id\<close> is the largest
  identifier of a population; \<open>drawn m alive k\<close> is the survivor that the \<open>k\<close>-th draw
  from state \<open>m\<close> on picks from \<open>alive\<close>; \<open>entrants fresh g m alive j n\<close> are the
  replacements that \<open>n\<close> iterations append after \<open>j\<close> earlier ones, each built from its
  drawn survivor's state in \<open>m\<close> and numbered on from the largest identifier of \<open>m\<close>.
\<close>

definition mark_bankrupt :: "ref list \<Rightarrow> firm list \<Rightarrow> firm list" where
  "mark_bankrupt dead fs =
     map (\<lambda>i. if i \<in> set dead then (fs ! i)\<lparr>bankrupt := True\<rparr> else fs ! i) [0..<length fs]"

definition top_id :: "firm list \<Rightarrow> int" where
  "top_id fs = Max (set (map unique_id fs))"

definition drawn :: "complex_economy \<Rightarrow> ref list \<Rightarrow> nat \<Rightarrow> ref" where
  "drawn m alive k = alive ! (random m (draws m + k) mod length alive)"

definition entrants ::
  "(group \<Rightarrow> firm) \<Rightarrow> group \<Rightarrow> complex_economy \<Rightarrow> ref list \<Rightarrow> nat \<Rightarrow> nat \<Rightarrow> firm list" where
  "entrants fresh g m alive j n =
     map (\<lambda>k. replacement fresh g (top_id (agents m) + 1 + int (j + k))
                (agents m ! drawn m alive (j + k)))
       [0..<n]"

subsection \<open>Construction\<close>

text \<open>\<open>a / b\<close> on two Python integers.\<close>

definition int_div :: "int \<Rightarrow> int \<Rightarrow> error + rat" where
  "int_div a b = (if b = 0 then Inl ZeroDivisionError else Inr (of_int a / of_int b))"

text \<open>
  The loop that creates the consumption-good firms; \<open>supplier\<close> is its running
  variable (\<open>None\<close> once \<open>fix_supplier\<close> is off). The supplier is a constructor
  argument, stored in the field \<open>supplier\<close>.
\<close>

fun create_consumption_firms ::
  "(group \<Rightarrow> firm) \<Rightarrow> bool \<Rightarrow> rat \<Rightarrow> rat \<Rightarrow> rat \<Rightarrow> int \<Rightarrow> nat list \<Rightarrow> nat option
   \<Rightarrow> complex_economy \<Rightarrow> complex_economy" where
  "create_consumption_firms fresh fix assets stock share n_cap [] supp m = m"
| "create_consumption_firms fresh fix assets stock share n_cap (i # rest) supp m =
     (let supp' = (if fix then (if i mod 4 = 0 \<and> i \<noteq> 0 then map_option Suc supp else supp)
                  else None);
          f = (constructor fresh consumption_firm (int i + n_cap) assets share (Some stock))
                \<lparr>supplier := supp'\<rparr>
      in create_consumption_firms fresh fix assets stock share n_cap rest supp'
           (m\<lparr>agents := agents m @ [f]\<rparr>))"

text \<open>
  The loop that creates the capital-good firms. Their constructor is called without a
  capital stock; the field is taken to be \<open>None\<close>, as in the replacement of a
  capital-good firm.
\<close>

definition create_capital_firms ::
  "(group \<Rightarrow> firm) \<Rightarrow> rat \<Rightarrow> rat \<Rightarrow> nat list \<Rightarrow> complex_economy \<Rightarrow> complex_economy" where
  "create_capital_firms fresh assets share ids m =
     fold (\<lambda>i m'. m'\<lparr>agents := agents m' @ [constructor fresh capital_firm (int i) assets share None]\<rparr>)
       ids m"

text \<open>
  \<open>ComplexEconomy.__init__\<close>. The fields declared at class level start at \<open>d(0)\<close>.
  \<open>consumption\<close> and \<open>unemployment_rate\<close> do not exist before their assignment; the
  record holds \<open>0\<close> there until then, and nothing reads them before. \<open>seed\<close> stands for
  the draws of the generator that the seed fixes. Data collection and logging do not
  change the model and are left out.
\<close>

definition init ::
  "(group \<Rightarrow> firm) \<Rightarrow> parameters \<Rightarrow> rat \<Rightarrow> rat \<Rightarrow> rat \<Rightarrow> rat \<Rightarrow> rat \<Rightarrow> rat \<Rightarrow> (nat \<Rightarrow> nat)
   \<Rightarrow> error + complex_economy" where
  "init fresh ps market_wage0 cpi0 avg_labour_productivity assets stock labour_supply0 seed =
     (let n_cons = n_consumption_firms ps; n_cap = n_capital_firms ps
      in case int_div n_cap (n_cons + n_cap) of
           Inl e \<Rightarrow> Inl e
         | Inr share \<Rightarrow>
        (case int_div 1 n_cons of
           Inl e \<Rightarrow> Inl e
         | Inr share_cons \<Rightarrow>
        (case int_div 1 n_cap of
           Inl e \<Rightarrow> Inl e
         | Inr share_cap \<Rightarrow>
             (let m0 = \<lparr>agents = [], random = seed, draws = 0,
                        social_policy = parameters.social_policy ps,
                        labour_supply_growth = parameters.labour_supply_growth ps,
                        cpi_weight = parameters.cpi_weight ps,
                        avg_lp_weight = parameters.avg_lp_weight ps,
                        unemployment_weight = parameters.unemployment_weight ps,
                        wage_share = parameters.wage_share ps,
                        max_capital_labour_share = share,
                        market_wage = market_wage0, cpi = cpi0,
                        avg_labour_prod = avg_labour_productivity,
                        labour_supply = labour_supply0,
                        employment = labour_supply0,
                        consumption = 0, unemployment_rate = 0,
                        avg_cap_price = 0, avg_comp_competitiveness = 0,
                        avg_cap_competitiveness = 0, average_unit_labour_cost = 0,
                        labour_demand = 0, unemployment = 0, delta_cpi = 0,
                        delta_productivity = 0, delta_unemployment = 0,
                        expansion_investment = 0, replacement_investment = 0,
                        agg_inventories = 0, agg_production = 0\<rparr>;
                  m1 = m0\<lparr>consumption := compute_consumption m0\<rparr>
              in case dec_div (unemployment m1) (employment m1) of
                   Inl e \<Rightarrow> Inl e
                 | Inr rate \<Rightarrow>
                     (let m2 = m1\<lparr>unemployment_rate := rate\<rparr>;
                          m3 = create_capital_firms fresh assets share_cap [0..<nat n_cap] m2;
                          m4 = create_consumption_firms fresh (fix_supplier ps) assets stock
                                 share_cons n_cap [0..<nat n_cons] (Some 0) m3
                      in Inr m4)))))"

subsection \<open>A concrete economy\<close>

text \<open>
  A population of two consumption-good and two capital-good firms on which the
  statements below are evaluated. The second consumption firm has lost its market
  share; the second capital firm went bankrupt in an earlier period.
\<close>

definition blank_firm :: "group \<Rightarrow> firm" where
  "blank_firm g =
     \<lparr>unique_id = 0, group = g, bankrupt = False, liquid_assets = 0, market_share = 0,
      capital_stock = None, supplier = None,
      machine = \<lparr>labour_productivity_coefficient = 1, machine.price = 1\<rparr>,
      price = 1, competitiveness = 0, labour_demand = 0, expansion_investment = 0,
      replacement_investment = 0, production = 0, inventory = 0, sales = 0, output' = 0\<rparr>"

definition example_agents :: "firm list" where
  "example_agents =
     [(blank_firm consumption_firm)\<lparr>unique_id := 0, liquid_assets := 10, market_share := 1/2,
         capital_stock := Some 4, firm.price := 2, competitiveness := 3/8,
         firm.labour_demand := 3\<rparr>,
      (blank_firm consumption_firm)\<lparr>unique_id := 1, liquid_assets := 5, market_share := 0,
         capital_stock := Some 6, firm.price := 4, competitiveness := 1/3,
         firm.labour_demand := 5\<rparr>,
      (blank_firm capital_firm)\<lparr>unique_id := 2, liquid_assets := 7, market_share := 1,
         machine := \<lparr>labour_productivity_coefficient = 3, machine.price = 9\<rparr>,
         firm.price := 6, competitiveness := 1/8, firm.labour_demand := 2\<rparr>,
      (blank_firm capital_firm)\<lparr>unique_id := 3, bankrupt := True, liquid_assets := -1,
         market_share := 1/4, firm.price := 100, competitiveness := 5,
         firm.labour_demand := 7\<rparr>]"

definition example_economy :: complex_economy where
  "example_economy =
     \<lparr>agents = example_agents, random = (\<lambda>n. n), draws = 0,
      social_policy = ''welfare'', labour_supply_growth = 0, cpi_weight = 1,
      avg_lp_weight = 1, unemployment_weight = 1, wage_share = 1/2,
      max_capital_labour_share = 1/2, market_wage = 3, cpi = 2, avg_labour_prod = 1,
      labour_supply = 10, employment = 10, consumption = 30, unemployment_rate = 0,
      avg_cap_price = 0, avg_comp_competitiveness = 0, avg_cap_competitiveness = 0,
      average_unit_labour_cost = 0, labour_demand = 8, unemployment = 0, delta_cpi = 0,
      delta_productivity = 0, delta_unemployment = 0, expansion_investment = 0,
      replacement_investment = 0, agg_inventories = 0, agg_production = 0\<rparr>"

text \<open>
  In \<open>crisis_economy\<close> the second capital firm is live again, with negative liquid
  assets, so that both groups have one dead firm and one survivor. In
  \<open>stranded_economy\<close> the only consumption firm is dead.
\<close>

definition crisis_economy :: complex_economy where
  "crisis_economy =
     example_economy\<lparr>agents := example_agents[3 := (example_agents ! 3)\<lparr>bankrupt := False\<rparr>]\<rparr>"

definition stranded_economy :: complex_economy where
  "stranded_economy = example_economy\<lparr>agents := [example_agents ! 1, example_agents ! 2]\<rparr>"

definition example_parameters :: parameters where
  "example_parameters =
     \<lparr>parameters.social_policy = ''welfare'', n_consumption_firms = 2, n_capital_firms = 1,
      parameters.labour_supply_growth = 0, parameters.cpi_weight = 1,
      parameters.avg_lp_weight = 1, parameters.unemployment_weight = 1,
      parameters.wage_share = 1/2, fix_supplier = True\<rparr>"

section \<open>Employment\<close>



lemma update_employment_fails:
  "labour_supply m = 0 \<Longrightarrow> \<exists>e. update_employment m = Inl e"
  by (simp add: update_employment_def dec_div_def Let_def)

section \<open>Consumption\<close>



section \<open>Construction\<close>

text \<open>The two creation loops only append agents; every scalar of the model is kept.\<close>

lemma create_consumption_firms_frame:
  "create_consumption_firms fresh fix assets stock share n_cap ids supp m
     = m\<lparr>agents := agents (create_consumption_firms fresh fix assets stock share n_cap ids supp m)\<rparr>"
proof (induction ids arbitrary: supp m)
  case Nil
  show ?case by simp
next
  case (Cons i ids)
  let ?s = "if fix then (if i mod 4 = 0 \<and> i \<noteq> 0 then map_option Suc supp else supp) else None"
  let ?f = "(constructor fresh consumption_firm (int i + n_cap) assets share (Some stock))\<lparr>supplier := ?s\<rparr>"
  let ?m = "m\<lparr>agents := agents m @ [?f]\<rparr>"
  let ?r = "create_consumption_firms fresh fix assets stock share n_cap ids ?s ?m"
  have step: "create_consumption_firms fresh fix assets stock share n_cap (i # ids) supp m = ?r"
    by (simp add: Let_def)
  have "?r = ?m\<lparr>agents := agents ?r\<rparr>" by (rule Cons.IH)
  also have "\<dots> = m\<lparr>agents := agents ?r\<rparr>" by simp
  finally show ?case unfolding step .
qed

lemma create_capital_firms_frame:
  "create_capital_firms fresh assets share ids m
     = m\<lparr>agents := agents (create_capital_firms fresh assets share ids m)\<rparr>"
proof (induction ids arbitrary: m)
  case Nil
  show ?case by (simp add: create_capital_firms_def)
next
  case (Cons i ids)
  let ?m = "m\<lparr>agents := agents m @ [constructor fresh capital_firm (int i) assets share None]\<rparr>"
  let ?r = "create_capital_firms fresh assets share ids ?m"
  have step: "create_capital_firms fresh assets share (i # ids) m = ?r"
    by (simp add: create_capital_firms_def)
  have "?r = ?m\<lparr>agents := agents ?r\<rparr>" by (rule Cons.IH)
  also have "\<dots> = m\<lparr>agents := agents ?r\<rparr>" by simp
  finally show ?case unfolding step .
qed

lemma create_consumption_firms_scalars:
  "employment (create_consumption_firms fresh fix assets stock share n_cap ids supp m) = employment m"
  "unemployment (create_consumption_firms fresh fix assets stock share n_cap ids supp m) = unemployment m"
  "unemployment_rate (create_consumption_firms fresh fix assets stock share n_cap ids supp m) = unemployment_rate m"
  "labour_supply (create_consumption_firms fresh fix assets stock share n_cap ids supp m) = labour_supply m"
  by (subst create_consumption_firms_frame, simp)+

lemma create_capital_firms_scalars:
  "employment (create_capital_firms fresh assets share ids m) = employment m"
  "unemployment (create_capital_firms fresh assets share ids m) = unemployment m"
  "unemployment_rate (create_capital_firms fresh assets share ids m) = unemployment_rate m"
  "labour_supply (create_capital_firms fresh assets share ids m) = labour_supply m"
  by (subst create_capital_firms_frame, simp)+

lemma init_Inr:
  assumes "init fresh ps w c a la cs ls seed = Inr m"
  shows "ls \<noteq> 0 \<and> employment m = ls \<and> unemployment m = 0 \<and> unemployment_rate m = 0
         \<and> labour_supply m = ls"
  using assms
  by (auto simp: init_def Let_def int_div_def dec_div_def create_consumption_firms_scalars
      create_capital_firms_scalars split: if_splits)

lemma init_zero_labour_supply:
  "init fresh ps w c a la cs 0 seed = Inl ZeroDivisionError
   \<or> init fresh ps w c a la cs 0 seed = Inl InvalidOperation"
  by (simp add: init_def Let_def int_div_def dec_div_def)

lemma init_succeeds:
  assumes "ls \<noteq> 0" "n_consumption_firms ps \<noteq> 0" "n_capital_firms ps \<noteq> 0"
    "n_consumption_firms ps + n_capital_firms ps \<noteq> 0"
  shows "\<exists>m. init fresh ps w c a la cs ls seed = Inr m"
  using assms by (simp add: init_def Let_def int_div_def dec_div_def)

text \<open>
  C10. Construction needs an initial labour supply other than zero. The initial
  unemployment rate is the class-level \<open>unemployment\<close>, zero, divided by \<open>employment\<close>,
  which was just set to the labour supply: with a labour supply of zero the
  constructor fails with a division error (\<open>InvalidOperation\<close> for \<open>0 / 0\<close>, unless the
  firm counts already made an earlier division fail). Every model that is constructed
  has a nonzero labour supply, \<open>employment = labour_supply\<close>, \<open>unemployment = 0\<close> and
  \<open>unemployment_rate = 0\<close>; and construction succeeds for every nonzero labour supply
  once the firm counts leave the three integer divisions defined.
\<close>

theorem init_labour_supply:
  "(ls = 0 \<longrightarrow>
      init fresh ps w c a la cs ls seed = Inl ZeroDivisionError
      \<or> init fresh ps w c a la cs ls seed = Inl InvalidOperation)
   \<and> (\<forall>m. init fresh ps w c a la cs ls seed = Inr m \<longrightarrow>
          ls \<noteq> 0 \<and> labour_supply m = ls \<and> employment m = ls \<and> unemployment m = 0
          \<and> unemployment_rate m = 0)
   \<and> (ls \<noteq> 0 \<and> n_consumption_firms ps \<noteq> 0 \<and> n_capital_firms ps \<noteq> 0
        \<and> n_consumption_firms ps + n_capital_firms ps \<noteq> 0 \<longrightarrow>
        (\<exists>m. init fresh ps w c a la cs ls seed = Inr m))"
  using init_Inr [of fresh ps w c a la cs ls seed] init_zero_labour_supply [of fresh ps w c a la cs seed]
    init_succeeds [of ls ps fresh w c a la cs seed]
  by blast

lemma init_example:
  "\<exists>m. init blank_firm example_parameters 3 2 1 10 4 10 (\<lambda>n. n) = Inr m
       \<and> map unique_id (agents m) = [0, 1, 2] \<and> map supplier (agents m) = [None, Some 0, Some 0]
       \<and> consumption m = 30"
  by (simp add: init_def Let_def int_div_def dec_div_def example_parameters_def
      create_capital_firms_def constructor_def blank_firm_def compute_consumption_def upt_rec)

theorem init_labour_supply_witness:
  "init blank_firm example_parameters 3 2 1 10 4 0 (\<lambda>n. n) = Inl InvalidOperation
   \<and> (\<exists>m. init blank_firm example_parameters 3 2 1 10 4 10 (\<lambda>n. n) = Inr m
          \<and> labour_supply m = 10 \<and> employment m = 10 \<and> unemployment m = 0
          \<and> unemployment_rate m = 0)"
proof -
  have zero: "init blank_firm example_parameters 3 2 1 10 4 0 (\<lambda>n. n) = Inl InvalidOperation"
    by (simp add: init_def Let_def int_div_def dec_div_def example_parameters_def)
  have counts: "(10::rat) \<noteq> 0 \<and> n_consumption_firms example_parameters \<noteq> 0
      \<and> n_capital_firms example_parameters \<noteq> 0
      \<and> n_consumption_firms example_parameters + n_capital_firms example_parameters \<noteq> 0"
    by (simp add: example_parameters_def)
  from init_labour_supply [of 10 blank_firm example_parameters 3 2 1 10 4 "\<lambda>n. n"] counts
  show ?thesis using zero by blast
qed

section \<open>Group aggregates\<close>

text \<open>
  Reading the objects behind the references of \<open>get_group\<close> gives the agents of the
  group that are not bankrupt, in scheduler order.
\<close>

lemma deref_filter:
  "map (\<lambda>r. xs ! r) (filter (\<lambda>r. P (xs ! r)) [0..<length xs]) = filter P xs"
proof -
  have "filter P (map (\<lambda>r. xs ! r) [0..<length xs]) = filter P xs"
    by (simp add: map_nth)
  then show ?thesis by (simp add: filter_map comp_def)
qed

lemma get_group_live:
  "get_group m g False
     = filter (\<lambda>r. group (agents m ! r) = g \<and> \<not> bankrupt (agents m ! r)) [0..<length (agents m)]"
  by (simp add: get_group_def Let_def conj_commute)

lemma deref_get_group:
  "deref m (get_group m g False) = filter (\<lambda>f. group f = g \<and> \<not> bankrupt f) (agents m)"
  unfolding deref_def get_group_live
  by (rule deref_filter [of "agents m" "\<lambda>f. group f = g \<and> \<not> bankrupt f"])

lemma deref_get_group_agents:
  "agents m' = agents m \<Longrightarrow>
   deref m' (get_group m' g False) = filter (\<lambda>f. group f = g \<and> \<not> bankrupt f) (agents m)"
  using deref_get_group [of m' g] by simp

subsection \<open>Rounding to two places\<close>




subsection \<open>Sector competitiveness\<close>



subsection \<open>Average prices\<close>



subsection \<open>Bankrupt agents in the aggregates\<close>

text \<open>
  Every aggregate that reads its firms through \<open>get_group\<close> depends on the agents that
  are not bankrupt only: replacing the scheduler's collection by one with the same
  live agents changes none of them. (For \<open>update_avg_ulc\<close> the unit labour cost is
  taken to depend on the machine alone.)
\<close>

lemma live_get_group:
  assumes "filter (\<lambda>f. \<not> bankrupt f) (agents m') = filter (\<lambda>f. \<not> bankrupt f) (agents m)"
  shows "deref m' (get_group m' g False) = deref m (get_group m g False)"
proof -
  have split: "filter (\<lambda>f. group f = g \<and> \<not> bankrupt f) fs
        = filter (\<lambda>f. group f = g) (filter (\<lambda>f. \<not> bankrupt f) fs)"
    for fs :: "firm list"
    by (induction fs) auto
  show ?thesis
    unfolding deref_get_group split using assms by (simp only:)
qed

lemma group_aggregates_ignore_bankrupt:
  assumes "filter (\<lambda>f. \<not> bankrupt f) fs = filter (\<lambda>f. \<not> bankrupt f) (agents m)"
  shows "update_average_prices (m\<lparr>agents := fs\<rparr>)
           = map_sum id (\<lambda>m'. m'\<lparr>agents := fs\<rparr>) (update_average_prices m)"
    and "update_avg_ulc (\<lambda>mc _. ulc mc) (m\<lparr>agents := fs\<rparr>)
           = map_sum id (\<lambda>m'. m'\<lparr>agents := fs\<rparr>) (update_avg_ulc (\<lambda>mc _. ulc mc) m)"
    and "update_average_labour_productivity (m\<lparr>agents := fs\<rparr>)
           = map_sum id (\<lambda>m'. m'\<lparr>agents := fs\<rparr>) (update_average_labour_productivity m)"
    and "update_sector_competitiveness (m\<lparr>agents := fs\<rparr>)
           = (update_sector_competitiveness m)\<lparr>agents := fs\<rparr>"
    and "aggregate_investment (m\<lparr>agents := fs\<rparr>) = (aggregate_investment m)\<lparr>agents := fs\<rparr>"
    and "aggregate_production (m\<lparr>agents := fs\<rparr>) = (aggregate_production m)\<lparr>agents := fs\<rparr>"
    and "aggregate_inventories (m\<lparr>agents := fs\<rparr>) = (aggregate_inventories m)\<lparr>agents := fs\<rparr>"
    and "compute_gdp (m\<lparr>agents := fs\<rparr>) = compute_gdp m"
    and "capital_labour_demand (m\<lparr>agents := fs\<rparr>) = capital_labour_demand m"
proof -
  have live: "deref m' (get_group m' g False) = deref m (get_group m g False)"
    if "agents m' = fs" for m' g
    using live_get_group [of m' m g] assms that by simp
  show "update_average_prices (m\<lparr>agents := fs\<rparr>)
           = map_sum id (\<lambda>m'. m'\<lparr>agents := fs\<rparr>) (update_average_prices m)"
    by (simp add: update_average_prices_def compute_average_price_def Let_def live
        deref_get_group_agents [of _ m] split: sum.splits)
  show "update_avg_ulc (\<lambda>mc _. ulc mc) (m\<lparr>agents := fs\<rparr>)
           = map_sum id (\<lambda>m'. m'\<lparr>agents := fs\<rparr>) (update_avg_ulc (\<lambda>mc _. ulc mc) m)"
    by (simp add: update_avg_ulc_def Let_def live split: sum.splits)
  show "update_average_labour_productivity (m\<lparr>agents := fs\<rparr>)
           = map_sum id (\<lambda>m'. m'\<lparr>agents := fs\<rparr>) (update_average_labour_productivity m)"
    by (simp add: update_average_labour_productivity_def Let_def live split: sum.splits)
  show "update_sector_competitiveness (m\<lparr>agents := fs\<rparr>)
           = (update_sector_competitiveness m)\<lparr>agents := fs\<rparr>"
    by (simp add: update_sector_competitiveness_def compute_sector_competitiveness_def Let_def live
        deref_get_group_agents [of _ m])
  show "aggregate_investment (m\<lparr>agents := fs\<rparr>) = (aggregate_investment m)\<lparr>agents := fs\<rparr>"
    by (simp add: aggregate_investment_def Let_def live)
  show "aggregate_production (m\<lparr>agents := fs\<rparr>) = (aggregate_production m)\<lparr>agents := fs\<rparr>"
    by (simp add: aggregate_production_def Let_def live)
  show "aggregate_inventories (m\<lparr>agents := fs\<rparr>) = (aggregate_inventories m)\<lparr>agents := fs\<rparr>"
    by (simp add: aggregate_inventories_def Let_def live)
  show "compute_gdp (m\<lparr>agents := fs\<rparr>) = compute_gdp m"
    by (simp add: compute_gdp_def Let_def live)
  show "capital_labour_demand (m\<lparr>agents := fs\<rparr>) = capital_labour_demand m"
    by (simp add: capital_labour_demand_def Let_def live)
qed

text \<open>
  C1. Every aggregation function computes its aggregate from the live agents only;
  in particular the sum of \<open>aggregate_labour_demand\<close> would not depend on the
  \<open>labour_demand\<close> of bankrupt agents. The code does not do this:
  \<open>aggregate_labour_demand\<close> iterates all scheduled agents. In the example economy
  the fourth agent is bankrupt with a labour demand of 7; the aggregate is 17 and
  drops to 10 when that demand is set to zero, while the sibling
  \<open>capital_labour_demand\<close>, which goes through \<open>get_group\<close>, leaves the bankrupt firm
  out.
\<close>

theorem aggregate_labour_demand_counts_bankrupt:
  "bankrupt (agents example_economy ! 3)
   \<and> firm.labour_demand (agents example_economy ! 3) = 7
   \<and> complex_economy.labour_demand (aggregate_labour_demand example_economy) = 17
   \<and> complex_economy.labour_demand
       (aggregate_labour_demand
          (example_economy\<lparr>agents := (agents example_economy)
             [3 := (agents example_economy ! 3)\<lparr>firm.labour_demand := 0\<rparr>]\<rparr>)) = 10
   \<and> capital_labour_demand example_economy = 2"
  by (simp add: aggregate_labour_demand_def capital_labour_demand_def deref_get_group
      example_economy_def example_agents_def blank_firm_def)

section \<open>Exit and entry\<close>

subsection \<open>Identifiers\<close>

text \<open>
  \<open>max\<close> over the identifiers of a population that is not empty is its largest
  identifier; marking an agent bankrupt does not change identifiers.
\<close>

lemma py_max_top_id: "fs \<noteq> [] \<Longrightarrow> py_max (map unique_id fs) = Inr (top_id fs)"
proof (cases fs)
  case Nil
  assume "fs \<noteq> []"
  with Nil show ?thesis by simp
next
  case (Cons a list)
  show ?thesis
    by (simp only: Cons py_max_def top_id_def list.map list.case Max.set_eq_fold)
qed

lemma unique_id_mark: "map unique_id (fs[i := (fs ! i)\<lparr>bankrupt := True\<rparr>]) = map unique_id fs"
proof (cases "i < length fs")
  case True
  have "map unique_id (fs[i := (fs ! i)\<lparr>bankrupt := True\<rparr>])
        = (map unique_id fs)[i := (map unique_id fs) ! i]"
    using True by (simp add: map_update)
  then show ?thesis by simp
next
  case False
  then show ?thesis by (simp add: list_update_beyond)
qed

lemma top_id_mark: "top_id (fs[i := (fs ! i)\<lparr>bankrupt := True\<rparr>]) = top_id fs"
  by (simp add: top_id_def unique_id_mark)

lemma top_id_snoc: "fs \<noteq> [] \<Longrightarrow> top_id (fs @ [f]) = max (top_id fs) (unique_id f)"
  by (simp add: top_id_def max.commute)

lemma top_id_ge: "f \<in> set fs \<Longrightarrow> unique_id f \<le> top_id fs"
  by (simp add: top_id_def)

subsection \<open>Marking\<close>

lemma length_mark_bankrupt [simp]: "length (mark_bankrupt dead fs) = length fs"
  by (simp add: mark_bankrupt_def)

lemma nth_mark_bankrupt:
  "i < length fs \<Longrightarrow>
   mark_bankrupt dead fs ! i = (if i \<in> set dead then (fs ! i)\<lparr>bankrupt := True\<rparr> else fs ! i)"
  by (simp add: mark_bankrupt_def)

lemma mark_bankrupt_Nil [simp]: "mark_bankrupt [] fs = fs"
  by (simp add: mark_bankrupt_def map_nth)

lemma mark_bankrupt_step:
  assumes "i < length fs" "set dead \<subseteq> {..<length fs}"
  shows "mark_bankrupt dead (fs[i := (fs ! i)\<lparr>bankrupt := True\<rparr>] @ [f])
         = mark_bankrupt (i # dead) fs @ [f]"
proof (rule nth_equalityI)
  show "length (mark_bankrupt dead (fs[i := (fs ! i)\<lparr>bankrupt := True\<rparr>] @ [f]))
        = length (mark_bankrupt (i # dead) fs @ [f])" by simp
next
  fix j assume "j < length (mark_bankrupt dead (fs[i := (fs ! i)\<lparr>bankrupt := True\<rparr>] @ [f]))"
  then have j: "j < Suc (length fs)" by simp
  let ?fs = "fs[i := (fs ! i)\<lparr>bankrupt := True\<rparr>] @ [f]"
  show "mark_bankrupt dead ?fs ! j = (mark_bankrupt (i # dead) fs @ [f]) ! j"
  proof (cases "j < length fs")
    case True
    have upd: "fs[i := (fs ! i)\<lparr>bankrupt := True\<rparr>] ! j
               = (if j = i then (fs ! i)\<lparr>bankrupt := True\<rparr> else fs ! j)"
      using assms(1) by (auto simp: nth_list_update)
    have "mark_bankrupt dead ?fs ! j
          = (if j \<in> set dead then (?fs ! j)\<lparr>bankrupt := True\<rparr> else ?fs ! j)"
      using True by (intro nth_mark_bankrupt) simp
    also have "?fs ! j = fs[i := (fs ! i)\<lparr>bankrupt := True\<rparr>] ! j"
      using True by (simp add: nth_append)
    finally have lhs: "mark_bankrupt dead ?fs ! j
          = (if j \<in> set dead
             then (fs[i := (fs ! i)\<lparr>bankrupt := True\<rparr>] ! j)\<lparr>bankrupt := True\<rparr>
             else fs[i := (fs ! i)\<lparr>bankrupt := True\<rparr>] ! j)" .
    have rhs: "(mark_bankrupt (i # dead) fs @ [f]) ! j
          = (if j \<in> set (i # dead) then (fs ! j)\<lparr>bankrupt := True\<rparr> else fs ! j)"
      using True by (simp add: nth_append nth_mark_bankrupt)
    show ?thesis unfolding lhs rhs upd by auto
  next
    case False
    with j have jl: "j = length fs" by simp
    then have "j \<notin> set dead" using assms(2) by auto
    moreover have "j < length ?fs" using jl by simp
    moreover have "?fs ! j = f" using jl by (simp add: nth_append)
    ultimately show ?thesis using jl by (simp add: nth_mark_bankrupt nth_append)
  qed
qed

subsection \<open>The replacement loop\<close>

text \<open>
  With a pool of survivors that is not empty and disjoint from the dead firms, the
  loop succeeds: it marks the dead firms, appends one replacement per dead firm, and
  takes one draw per dead firm. Each replacement is built from the state its survivor
  had before the loop, which no iteration changes.
\<close>

lemma replace_dead_firms_closed:
  assumes "set dead \<subseteq> {..<length (agents m)}" "set alive \<subseteq> {..<length (agents m)}"
    "set alive \<inter> set dead = {}" "alive \<noteq> []"
  shows "replace_dead_firms fresh g alive dead m =
           Inr (m\<lparr>agents := mark_bankrupt dead (agents m) @ entrants fresh g m alive 0 (length dead),
                  draws := draws m + length dead\<rparr>)"
  using assms
proof (induction dead arbitrary: m)
  case Nil
  show ?case by (simp add: entrants_def)
next
  case (Cons i dead)
  let ?A = "agents m"
  let ?mk = "?A[i := (?A ! i)\<lparr>bankrupt := True\<rparr>]"
  let ?c = "drawn m alive 0"
  let ?new = "replacement fresh g (top_id ?A + 1) (?A ! ?c)"
  let ?m' = "m\<lparr>draws := Suc (draws m), agents := ?mk @ [?new]\<rparr>"
  from Cons.prems have i: "i < length ?A" and dead: "set dead \<subseteq> {..<length ?A}" by auto
  from i have ne: "?A \<noteq> []" by auto
  have c_in: "?c \<in> set alive"
    using Cons.prems(4) by (simp add: drawn_def)
  then have c_lt: "?c < length ?A" and c_ne: "?c \<noteq> i"
    using Cons.prems(2,3) by auto
  have src: "?mk ! ?c = ?A ! ?c" using c_ne by simp
  have mx: "py_max (map unique_id ?mk) = Inr (top_id ?A)"
    using ne by (simp add: unique_id_mark py_max_top_id [of ?A, symmetric])
  have step: "replace_dead_firms fresh g alive (i # dead) m = replace_dead_firms fresh g alive dead ?m'"
    using Cons.prems(4) mx src by (simp add: choice_def Let_def drawn_def)
  have ih: "replace_dead_firms fresh g alive dead ?m' =
      Inr (?m'\<lparr>agents := mark_bankrupt dead (agents ?m') @ entrants fresh g ?m' alive 0 (length dead),
                draws := draws ?m' + length dead\<rparr>)"
    using Cons.prems dead by (intro Cons.IH) auto
  have top': "top_id (?mk @ [?new]) = top_id ?A + 1"
    using ne by (simp add: top_id_snoc top_id_mark replacement_def constructor_def Let_def)
  have drawn': "drawn ?m' alive k = drawn m alive (Suc k)" for k
    by (simp add: drawn_def)
  have read: "(?mk @ [?new]) ! drawn m alive (Suc k) = ?A ! drawn m alive (Suc k)" for k
  proof -
    have "drawn m alive (Suc k) \<in> set alive" using Cons.prems(4) by (simp add: drawn_def)
    then have "drawn m alive (Suc k) < length ?A" "drawn m alive (Suc k) \<noteq> i"
      using Cons.prems(2,3) by auto
    then show ?thesis by (simp add: nth_append)
  qed
  have ent_k: "replacement fresh g (top_id (agents ?m') + 1 + int k) (agents ?m' ! drawn ?m' alive k)
        = replacement fresh g (top_id ?A + 1 + int (Suc k)) (?A ! drawn m alive (Suc k))" for k
  proof -
    have "agents ?m' = ?mk @ [?new]" by simp
    then have "top_id (agents ?m') + 1 + int k = top_id ?A + 1 + int (Suc k)"
      "agents ?m' ! drawn ?m' alive k = ?A ! drawn m alive (Suc k)"
      using top' drawn' [of k] read [of k] by simp_all
    then show ?thesis by (simp only:)
  qed
  have new0: "?new = replacement fresh g (top_id ?A + 1 + int 0) (?A ! drawn m alive 0)"
    by simp
  have ent: "[?new] @ entrants fresh g ?m' alive 0 (length dead)
             = entrants fresh g m alive 0 (Suc (length dead))"
    unfolding entrants_def map_upt_Suc ent_k using new0 by simp
  have marks: "mark_bankrupt dead (?mk @ [?new]) = mark_bankrupt (i # dead) ?A @ [?new]"
    using i dead by (rule mark_bankrupt_step)
  have "mark_bankrupt dead (agents ?m') @ entrants fresh g ?m' alive 0 (length dead)
        = mark_bankrupt (i # dead) ?A @ entrants fresh g m alive 0 (length (i # dead))"
    using marks ent by simp
  then show ?case unfolding step ih by simp
qed

lemma replace_dead_firms_no_survivor:
  "replace_dead_firms fresh g [] (i # dead) m = Inl IndexError"
  by (simp add: choice_def Let_def)

subsection \<open>Dead firms and survivors\<close>

text \<open>
  The dead firms of a group are its live agents whose market share is not positive or
  whose liquid assets are negative; the survivors are the other live agents of the
  group.
\<close>

lemma mem_get_group:
  "r \<in> set (get_group m g False)
     \<longleftrightarrow> r < length (agents m) \<and> group (agents m ! r) = g \<and> \<not> bankrupt (agents m ! r)"
  by (auto simp: get_group_live)

lemma mem_dead_firms:
  "r \<in> set (dead_firms m g)
     \<longleftrightarrow> r < length (agents m) \<and> group (agents m ! r) = g \<and> \<not> bankrupt (agents m ! r)
         \<and> (market_share (agents m ! r) \<le> 0 \<or> liquid_assets (agents m ! r) < 0)"
  by (auto simp: dead_firms_def Let_def mem_get_group)

lemma mem_alive_firms:
  "r \<in> set (alive_firms m g)
     \<longleftrightarrow> r < length (agents m) \<and> group (agents m ! r) = g \<and> \<not> bankrupt (agents m ! r)
         \<and> 0 < market_share (agents m ! r) \<and> 0 \<le> liquid_assets (agents m ! r)"
  by (auto simp: alive_firms_def Let_def mem_get_group mem_dead_firms)

subsection \<open>One group\<close>

text \<open>
  One pass of the loop over the groups fails exactly when the group has a dead firm
  and no survivor, with the \<open>IndexError\<close> of \<open>choice\<close>; otherwise it has the closed form
  of the replacement loop.
\<close>

lemma entrants_0 [simp]: "entrants fresh g m alive j 0 = []"
  by (simp add: entrants_def)

lemma length_entrants [simp]: "length (entrants fresh g m alive j n) = n"
  by (simp add: entrants_def)

lemma exit_group_closed:
  "exit_group fresh g m =
     (if dead_firms m g \<noteq> [] \<and> alive_firms m g = [] then Inl IndexError
      else Inr (m\<lparr>agents := mark_bankrupt (dead_firms m g) (agents m)
                          @ entrants fresh g m (alive_firms m g) 0 (length (dead_firms m g)),
                  draws := draws m + length (dead_firms m g)\<rparr>))"
proof (cases "dead_firms m g")
  case Nil
  then show ?thesis by (simp add: exit_group_def)
next
  case (Cons i dead)
  show ?thesis
  proof (cases "alive_firms m g = []")
    case True
    have "exit_group fresh g m = Inl IndexError"
      unfolding exit_group_def True Cons by (rule replace_dead_firms_no_survivor)
    then show ?thesis using True Cons by simp
  next
    case False
    have "set (dead_firms m g) \<subseteq> {..<length (agents m)}"
      "set (alive_firms m g) \<subseteq> {..<length (agents m)}"
      "set (alive_firms m g) \<inter> set (dead_firms m g) = {}"
      by (auto simp: mem_dead_firms mem_alive_firms)
    from replace_dead_firms_closed [OF this False, of fresh g] False
    show ?thesis by (simp add: exit_group_def)
  qed
qed

subsection \<open>The replacements\<close>

lemma replacement_fields:
  "unique_id (replacement fresh g uid s) = uid"
  "group (replacement fresh g uid s) = g"
  "bankrupt (replacement fresh g uid s) = False"
  "liquid_assets (replacement fresh g uid s) = liquid_assets s"
  "market_share (replacement fresh g uid s) = market_share s"
  "capital_stock (replacement fresh g uid s) = (if g = consumption_firm then capital_stock s else None)"
  by (simp_all add: replacement_def constructor_def Let_def)


lemma group_entrants: "e \<in> set (entrants fresh g m alive j n) \<Longrightarrow> group e = g"
  by (auto simp: entrants_def replacement_fields)

lemma ids_entrants:
  "map unique_id (entrants fresh g m alive j n)
     = map (\<lambda>k. top_id (agents m) + 1 + int (j + k)) [0..<n]"
  by (simp add: entrants_def replacement_fields comp_def)

lemma ids_mark_bankrupt: "map unique_id (mark_bankrupt dead fs) = map unique_id fs"
  by (rule nth_equalityI) (simp_all add: nth_mark_bankrupt)

text \<open>A run of consecutive identifiers above the largest one raises it by its length.\<close>

lemma Max_run:
  "ids \<noteq> [] \<Longrightarrow>
   Max (set (ids @ map (\<lambda>k. Max (set ids) + 1 + int k) [0..<n])) = Max (set ids) + int n"
proof (induction n)
  case 0
  then show ?case by simp
next
  case (Suc n)
  let ?run = "ids @ map (\<lambda>k. Max (set ids) + 1 + int k) [0..<n]"
  have "set (ids @ map (\<lambda>k. Max (set ids) + 1 + int k) [0..<Suc n])
        = insert (Max (set ids) + 1 + int n) (set ?run)"
    by auto
  moreover have "set ?run \<noteq> {}" "finite (set ?run)" using Suc.prems by auto
  moreover have "Max (insert (Max (set ids) + 1 + int n) (set ?run))
        = max (Max (set ids) + 1 + int n) (Max (set ?run))"
    using \<open>finite (set ?run)\<close> \<open>set ?run \<noteq> {}\<close> by (rule Max_insert)
  ultimately have "Max (set (ids @ map (\<lambda>k. Max (set ids) + 1 + int k) [0..<Suc n]))
        = max (Max (set ids) + 1 + int n) (Max (set ?run))"
    by (simp only:)
  then show ?case using Suc.IH [OF Suc.prems] by simp
qed

subsection \<open>The groups do not interfere\<close>

text \<open>
  A pass over one group marks agents of that group and appends agents of that group;
  the references, the dead firms and the survivors of another group are the same
  before and after it, and so is the state of every agent of the other group.
\<close>

lemma other_group_get_group:
  assumes m1: "agents m1 = mark_bankrupt (dead_firms m g) (agents m) @ E"
    and E: "\<forall>e\<in>set E. group e = g" and g': "g' \<noteq> g"
  shows "get_group m1 g' False = get_group m g' False"
proof -
  let ?A = "agents m" and ?n = "length E"
  let ?P1 = "\<lambda>r. group (agents m1 ! r) = g' \<and> \<not> bankrupt (agents m1 ! r)"
  let ?P = "\<lambda>r. group (?A ! r) = g' \<and> \<not> bankrupt (?A ! r)"
  have old: "?P1 r = ?P r" if "r < length ?A" for r
  proof (cases "r \<in> set (dead_firms m g)")
    case True
    then have "group (?A ! r) = g" by (simp add: mem_dead_firms)
    then show ?thesis using that True g' by (simp add: m1 nth_append nth_mark_bankrupt)
  next
    case False
    then show ?thesis using that by (simp add: m1 nth_append nth_mark_bankrupt)
  qed
  have new: "\<not> ?P1 r" if "length ?A \<le> r" "r < length ?A + ?n" for r
  proof -
    have "agents m1 ! r = E ! (r - length ?A)" using that by (simp add: m1 nth_append)
    moreover have "E ! (r - length ?A) \<in> set E" using that by simp
    ultimately have "group (agents m1 ! r) = g" using E by simp
    then show ?thesis using g' by simp
  qed
  have "[0..<length (agents m1)] = [0..<length ?A] @ [length ?A..<length ?A + ?n]"
    using upt_add_eq_append [of 0 "length ?A" ?n] by (simp add: m1)
  then have "filter ?P1 [0..<length (agents m1)]
             = filter ?P1 [0..<length ?A] @ filter ?P1 [length ?A..<length ?A + ?n]"
    by simp
  also have "filter ?P1 [length ?A..<length ?A + ?n] = []"
    unfolding filter_empty_conv
  proof
    fix r assume "r \<in> set [length ?A..<length ?A + ?n]"
    then have "length ?A \<le> r" "r < length ?A + ?n" by simp_all
    then show "\<not> ?P1 r" by (rule new)
  qed
  also have "filter ?P1 [0..<length ?A] = filter ?P [0..<length ?A]"
  proof (rule filter_cong [OF refl])
    fix r assume "r \<in> set [0..<length ?A]"
    then have "r < length ?A" by simp
    then show "?P1 r = ?P r" by (rule old)
  qed
  finally have "filter ?P1 [0..<length (agents m1)] = filter ?P [0..<length ?A]" by simp
  then show ?thesis by (simp only: get_group_live)
qed

lemma other_group_nth:
  assumes m1: "agents m1 = mark_bankrupt (dead_firms m g) (agents m) @ E"
    and g': "g' \<noteq> g" and r: "r \<in> set (get_group m g' False)"
  shows "agents m1 ! r = agents m ! r"
proof -
  from r have "r < length (agents m)" "group (agents m ! r) = g'" by (simp_all add: mem_get_group)
  moreover then have "r \<notin> set (dead_firms m g)" using g' by (simp add: mem_dead_firms)
  ultimately show ?thesis by (simp add: m1 nth_append nth_mark_bankrupt)
qed

lemma other_group_dead_firms:
  assumes "agents m1 = mark_bankrupt (dead_firms m g) (agents m) @ E"
    and "\<forall>e\<in>set E. group e = g" and "g' \<noteq> g"
  shows "dead_firms m1 g' = dead_firms m g'"
  unfolding dead_firms_def Let_def other_group_get_group [OF assms]
proof (rule filter_cong [OF refl])
  fix r assume "r \<in> set (get_group m g' False)"
  then have "agents m1 ! r = agents m ! r" by (rule other_group_nth [OF assms(1,3)])
  then show "(market_share (agents m1 ! r) \<le> 0 \<or> liquid_assets (agents m1 ! r) < 0)
             = (market_share (agents m ! r) \<le> 0 \<or> liquid_assets (agents m ! r) < 0)"
    by simp
qed

lemma other_group_alive_firms:
  assumes "agents m1 = mark_bankrupt (dead_firms m g) (agents m) @ E"
    and "\<forall>e\<in>set E. group e = g" and "g' \<noteq> g"
  shows "alive_firms m1 g' = alive_firms m g'"
  by (simp only: alive_firms_def Let_def other_group_get_group [OF assms]
      other_group_dead_firms [OF assms])

lemma top_id_after_pass:
  assumes "agents m \<noteq> [] \<or> n = 0"
  shows "top_id (mark_bankrupt D (agents m) @ entrants fresh g m S 0 n) = top_id (agents m) + int n"
proof (cases "n = 0")
  case True
  then show ?thesis by (simp add: top_id_def ids_mark_bankrupt)
next
  case False
  with assms have ne: "map unique_id (agents m) \<noteq> []" by simp
  have "map unique_id (mark_bankrupt D (agents m) @ entrants fresh g m S 0 n)
        = map unique_id (agents m)
          @ map (\<lambda>k. Max (set (map unique_id (agents m))) + 1 + int k) [0..<n]"
    by (simp add: ids_mark_bankrupt ids_entrants top_id_def)
  then show ?thesis
    unfolding top_id_def using Max_run [OF ne, of n] by (simp only:)
qed

lemma mark_bankrupt_append:
  assumes "set D' \<subseteq> {..<length fs}"
  shows "mark_bankrupt D' (mark_bankrupt D fs @ E) = mark_bankrupt (D @ D') fs @ E"
proof (rule nth_equalityI)
  show "length (mark_bankrupt D' (mark_bankrupt D fs @ E)) = length (mark_bankrupt (D @ D') fs @ E)"
    by simp
next
  fix j assume "j < length (mark_bankrupt D' (mark_bankrupt D fs @ E))"
  then have j: "j < length fs + length E" by simp
  then have lhs: "mark_bankrupt D' (mark_bankrupt D fs @ E) ! j
      = (if j \<in> set D' then ((mark_bankrupt D fs @ E) ! j)\<lparr>bankrupt := True\<rparr>
         else (mark_bankrupt D fs @ E) ! j)"
    by (intro nth_mark_bankrupt) simp
  show "mark_bankrupt D' (mark_bankrupt D fs @ E) ! j = (mark_bankrupt (D @ D') fs @ E) ! j"
  proof (cases "j < length fs")
    case True
    then show ?thesis unfolding lhs by (simp add: nth_append nth_mark_bankrupt)
  next
    case False
    then have "j \<notin> set D'" using assms by auto
    then show ?thesis unfolding lhs using False by (simp add: nth_append)
  qed
qed

lemma entrants_after_pass:
  assumes m1: "agents m1 = mark_bankrupt (dead_firms m g) (agents m) @ entrants fresh g m S 0 d"
    and rnd: "random m1 = random m" "draws m1 = draws m + d"
    and g': "g' \<noteq> g" and S': "set S' \<subseteq> set (get_group m g' False)"
    and ne: "S' \<noteq> [] \<or> n = 0" and A: "agents m \<noteq> [] \<or> d = 0"
  shows "entrants fresh g' m1 S' 0 n = entrants fresh g' m S' d n"
proof (cases "n = 0")
  case True
  then show ?thesis by simp
next
  case False
  with ne have S'ne: "S' \<noteq> []" by simp
  have top: "top_id (agents m1) = top_id (agents m) + int d"
    unfolding m1 using A by (rule top_id_after_pass)
  have one: "replacement fresh g' (top_id (agents m1) + 1 + int (0 + k)) (agents m1 ! drawn m1 S' (0 + k))
      = replacement fresh g' (top_id (agents m) + 1 + int (d + k)) (agents m ! drawn m S' (d + k))" for k
  proof -
    have d: "drawn m1 S' (0 + k) = drawn m S' (d + k)"
      by (simp add: drawn_def rnd add.assoc)
    have "drawn m S' (d + k) \<in> set S'" using S'ne by (simp add: drawn_def)
    then have "drawn m S' (d + k) \<in> set (get_group m g' False)" using S' by auto
    then have "agents m1 ! drawn m S' (d + k) = agents m ! drawn m S' (d + k)"
      by (rule other_group_nth [OF m1 g'])
    moreover have "top_id (agents m1) + 1 + int (0 + k) = top_id (agents m) + 1 + int (d + k)"
      using top by simp
    ultimately show ?thesis using d by (simp only:)
  qed
  show ?thesis unfolding entrants_def one ..
qed

lemma alive_firms_subset: "set (alive_firms m g) \<subseteq> set (get_group m g False)"
  by (auto simp: mem_alive_firms mem_get_group)

subsection \<open>Both groups\<close>

text \<open>
  \<open>exit_and_entry\<close> on every input: it fails when the consumption group, or else the
  capital group, has a dead firm and no survivor; otherwise the dead firms of both
  groups are marked, and the replacements of the consumption group and then those of
  the capital group are appended, numbered consecutively from the largest identifier.
\<close>

lemma exit_and_entry_closed:
  "exit_and_entry fresh m =
     (if dead_firms m consumption_firm \<noteq> [] \<and> alive_firms m consumption_firm = []
      then Inl IndexError
      else if dead_firms m capital_firm \<noteq> [] \<and> alive_firms m capital_firm = []
      then Inl IndexError
      else Inr (m\<lparr>agents :=
                    mark_bankrupt (dead_firms m consumption_firm @ dead_firms m capital_firm) (agents m)
                    @ entrants fresh consumption_firm m (alive_firms m consumption_firm) 0
                        (length (dead_firms m consumption_firm))
                    @ entrants fresh capital_firm m (alive_firms m capital_firm)
                        (length (dead_firms m consumption_firm))
                        (length (dead_firms m capital_firm)),
                  draws := draws m + length (dead_firms m consumption_firm)
                           + length (dead_firms m capital_firm)\<rparr>))"
proof (cases "dead_firms m consumption_firm \<noteq> [] \<and> alive_firms m consumption_firm = []")
  case True
  then show ?thesis
    by (simp add: exit_and_entry_def groups_def exit_group_closed)
next
  case False
  let ?Dc = "dead_firms m consumption_firm" and ?Sc = "alive_firms m consumption_firm"
  let ?Dk = "dead_firms m capital_firm" and ?Sk = "alive_firms m capital_firm"
  let ?Ec = "entrants fresh consumption_firm m ?Sc 0 (length ?Dc)"
  let ?m1 = "m\<lparr>agents := mark_bankrupt ?Dc (agents m) @ ?Ec, draws := draws m + length ?Dc\<rparr>"
  have first: "exit_group fresh consumption_firm m = Inr ?m1"
    using False by (simp add: exit_group_closed)
  have m1: "agents ?m1 = mark_bankrupt ?Dc (agents m) @ ?Ec" by simp
  have E: "\<forall>e\<in>set ?Ec. group e = consumption_firm"
    by (auto dest: group_entrants)
  have ne: "capital_firm \<noteq> consumption_firm" by simp
  have dead1: "dead_firms ?m1 capital_firm = ?Dk"
    by (rule other_group_dead_firms [OF m1 E ne])
  have alive1: "alive_firms ?m1 capital_firm = ?Sk"
    by (rule other_group_alive_firms [OF m1 E ne])
  have second: "exit_group fresh capital_firm ?m1 =
      (if ?Dk \<noteq> [] \<and> ?Sk = [] then Inl IndexError
       else Inr (?m1\<lparr>agents := mark_bankrupt ?Dk (agents ?m1)
                            @ entrants fresh capital_firm ?m1 ?Sk 0 (length ?Dk),
                    draws := draws ?m1 + length ?Dk\<rparr>))"
    unfolding exit_group_closed [of fresh capital_firm ?m1] dead1 alive1 ..
  have run: "exit_and_entry fresh m = exit_group fresh capital_firm ?m1"
    by (simp add: exit_and_entry_def groups_def first split: sum.splits)
  show ?thesis
  proof (cases "?Dk \<noteq> [] \<and> ?Sk = []")
    case True
    then show ?thesis using False run second by simp
  next
    case ok: False
    have A: "agents m \<noteq> [] \<or> length ?Dc = 0"
      by (cases "?Dc") (auto simp: mem_dead_firms dest!: arg_cong [where f = set])
    have Dk: "set ?Dk \<subseteq> {..<length (agents m)}" by (auto simp: mem_dead_firms)
    have ent: "entrants fresh capital_firm ?m1 ?Sk 0 (length ?Dk)
               = entrants fresh capital_firm m ?Sk (length ?Dc) (length ?Dk)"
      using ok by (intro entrants_after_pass [OF m1 _ _ ne alive_firms_subset _ A]) auto
    have marks: "mark_bankrupt ?Dk (agents ?m1) = mark_bankrupt (?Dc @ ?Dk) (agents m) @ ?Ec"
      unfolding m1 using Dk by (rule mark_bankrupt_append)
    show ?thesis using False ok unfolding run second ent marks by simp
  qed
qed

subsection \<open>The concrete economies\<close>

text \<open>
  \<open>exit_and_entry\<close> evaluated from its definition. In \<open>crisis_economy\<close> the dead
  consumption firm 1 is replaced by a clone of survivor 0 with identifier 4, and the
  dead capital firm 3 by a clone of survivor 2 with identifier 5, machine included.
  In \<open>stranded_economy\<close> the draw of a survivor fails.
\<close>

lemma crisis_run:
  "exit_and_entry blank_firm crisis_economy =
     Inr (crisis_economy\<lparr>agents :=
        [example_agents ! 0, (example_agents ! 1)\<lparr>bankrupt := True\<rparr>, example_agents ! 2,
         (example_agents ! 3)\<lparr>bankrupt := True\<rparr>,
         (blank_firm consumption_firm)\<lparr>unique_id := 4, liquid_assets := 10, market_share := 1/2,
            capital_stock := Some 4\<rparr>,
         (blank_firm capital_firm)\<lparr>unique_id := 5, liquid_assets := 7, market_share := 1,
            machine := \<lparr>labour_productivity_coefficient = 3, machine.price = 9\<rparr>\<rparr>],
        draws := 2\<rparr>)"
  by (simp add: exit_and_entry_def groups_def exit_group_def dead_firms_def alive_firms_def
      get_group_def choice_def py_max_def replacement_def constructor_def Let_def
      crisis_economy_def example_economy_def example_agents_def blank_firm_def upt_rec)


lemma stranded_run:
  "exit_and_entry blank_firm stranded_economy = Inl IndexError"
  by (simp add: exit_and_entry_def groups_def exit_group_def dead_firms_def alive_firms_def
      get_group_def choice_def Let_def stranded_economy_def
      example_economy_def example_agents_def blank_firm_def upt_rec)


lemma crisis_top_id: "top_id (agents crisis_economy) = 3"
  by (simp add: top_id_def crisis_economy_def example_economy_def example_agents_def blank_firm_def)



lemma exit_and_entry_agents:
  assumes "exit_and_entry fresh m = Inr m'"
  shows "agents m' =
           mark_bankrupt (dead_firms m consumption_firm @ dead_firms m capital_firm) (agents m)
           @ entrants fresh consumption_firm m (alive_firms m consumption_firm) 0
               (length (dead_firms m consumption_firm))
           @ entrants fresh capital_firm m (alive_firms m capital_firm)
               (length (dead_firms m consumption_firm)) (length (dead_firms m capital_firm))"
    and "dead_firms m consumption_firm = [] \<or> alive_firms m consumption_firm \<noteq> []"
    and "dead_firms m capital_firm = [] \<or> alive_firms m capital_firm \<noteq> []"
  using assms by (auto simp: exit_and_entry_closed split: if_splits)



lemma ids_chain:
  "map (\<lambda>k. c + int (0 + k)) [0..<a] @ map (\<lambda>k. c + int (a + k)) [0..<b]
     = map (\<lambda>k. c + int k) [0..<a + b]"
proof -
  have "[0..<a + b] = [0..<a] @ map (\<lambda>k. a + k) [0..<b]"
    using upt_add_eq_append [of 0 a b] map_add_upt [of a b] by (simp add: add.commute)
  then show ?thesis by (simp add: comp_def)
qed

lemma exit_and_entry_ids:
  assumes "exit_and_entry fresh m = Inr m'"
  shows "map unique_id (agents m')
         = map unique_id (agents m)
           @ map (\<lambda>k. top_id (agents m) + 1 + int k)
               [0..<length (dead_firms m consumption_firm) + length (dead_firms m capital_firm)]"
  unfolding exit_and_entry_agents(1) [OF assms]
  by (simp add: ids_mark_bankrupt ids_entrants ids_chain [symmetric])

lemma fresh_ids:
  assumes ids': "ids' = ids @ map (\<lambda>k. Max (set ids) + 1 + int k) [0..<n]"
    and j: "length ids \<le> j" "j < length ids'" and ne: "ids \<noteq> []"
  shows "ids' ! j = Max (set (take j ids')) + 1" and "\<forall>i<j. ids' ! i < ids' ! j"
proof -
  define k where "k = j - length ids"
  have k: "j = length ids + k" "k < n" using j by (simp_all add: k_def ids')
  have tk: "take j ids' = ids @ map (\<lambda>k. Max (set ids) + 1 + int k) [0..<k]"
    using k by (simp add: ids' take_map)
  have mx: "Max (set (take j ids')) = Max (set ids) + int k"
    unfolding tk using ne by (rule Max_run)
  have at: "ids' ! j = Max (set ids) + 1 + int k"
    using k by (simp add: ids' nth_append)
  show "ids' ! j = Max (set (take j ids')) + 1" using mx at by simp
  show "\<forall>i<j. ids' ! i < ids' ! j"
  proof (intro allI impI)
    fix i assume "i < j"
    then have "ids' ! i \<in> set (take j ids')"
      using j by (metis in_set_conv_nth length_take min.absorb2 less_imp_le_nat nth_take)
    then have "ids' ! i \<le> Max (set (take j ids'))" by simp
    then show "ids' ! i < ids' ! j" using mx at by simp
  qed
qed

section \<open>The claims on exit and entry\<close>



text \<open>
  C4, as amended. When a group has a dead firm and no survivor, \<open>exit_and_entry\<close> does
  not fail silently: it aborts with \<open>IndexError\<close>, the error that \<open>random.choice\<close>
  raises on any empty sequence; there is no condition of its own for
  "no survivors available". This is the only failure of \<open>exit_and_entry\<close>, and it
  occurs exactly when one of the two groups has a dead firm and no survivor.
\<close>

theorem exit_and_entry_no_survivors:
  "(\<forall>e. exit_and_entry fresh m = Inl e \<longrightarrow> e = IndexError)
   \<and> (exit_and_entry fresh m = Inl IndexError
        \<longleftrightarrow> (\<exists>g\<in>set groups. dead_firms m g \<noteq> [] \<and> alive_firms m g = []))
   \<and> choice m ([] :: ref list) = Inl IndexError"
  by (auto simp: exit_and_entry_closed groups_def choice_def)

theorem exit_and_entry_no_survivors_witness:
  "exit_and_entry blank_firm stranded_economy = Inl IndexError
   \<and> dead_firms stranded_economy consumption_firm = [0]
   \<and> alive_firms stranded_economy consumption_firm = []"
proof -
  have lists: "dead_firms stranded_economy consumption_firm = [0]"
    "alive_firms stranded_economy consumption_firm = []"
    by (simp_all add: dead_firms_def alive_firms_def get_group_def Let_def stranded_economy_def
        example_economy_def example_agents_def blank_firm_def upt_rec)
  then have "\<exists>g\<in>set groups. dead_firms stranded_economy g \<noteq> [] \<and> alive_firms stranded_economy g = []"
    by (simp add: groups_def)
  with exit_and_entry_no_survivors [of blank_firm stranded_economy] lists
  show ?thesis by blast
qed

text \<open>
  The claim as stated asks for a distinguishable condition. In \<open>stranded_economy\<close> the
  failure is the same value as that of a choice from an empty sequence.
\<close>

theorem no_survivors_plain_IndexError:
  "exit_and_entry blank_firm stranded_economy = Inl IndexError
   \<and> choice stranded_economy ([] :: ref list) = Inl IndexError"
  using stranded_run by (simp add: choice_def)

text \<open>
  C5. Every replacement that \<open>exit_and_entry\<close> creates gets the identifier one above
  the largest identifier of the whole population at the moment of its creation, both
  groups and bankrupt firms included: the population at that moment is the part of the
  final collection before the new agent (later iterations only set bankrupt flags in
  it). Hence the identifier is greater than every earlier one, and the replacements
  of one call have distinct, increasing identifiers. The agents that were there before
  the call keep their identifiers.
\<close>

theorem exit_and_entry_fresh_ids:
  assumes "exit_and_entry fresh m = Inr m'"
  shows "length (agents m) \<le> length (agents m')
         \<and> map unique_id (take (length (agents m)) (agents m')) = map unique_id (agents m)
         \<and> (\<forall>j. length (agents m) \<le> j \<and> j < length (agents m') \<longrightarrow>
               unique_id (agents m' ! j) = top_id (take j (agents m')) + 1
               \<and> (\<forall>i<j. unique_id (agents m' ! i) < unique_id (agents m' ! j)))"
proof -
  let ?n = "length (dead_firms m consumption_firm) + length (dead_firms m capital_firm)"
  let ?ids = "map unique_id (agents m)" and ?ids' = "map unique_id (agents m')"
  have ids': "?ids' = ?ids @ map (\<lambda>k. Max (set ?ids) + 1 + int k) [0..<?n]"
    using exit_and_entry_ids [OF assms] by (simp add: top_id_def)
  have len: "length (agents m') = length (agents m) + ?n"
    using arg_cong [OF ids', of length] by simp
  have keep: "map unique_id (take (length (agents m)) (agents m')) = ?ids"
    using arg_cong [OF ids', of "take (length (agents m))"] by (simp add: take_map)
  have new: "unique_id (agents m' ! j) = top_id (take j (agents m')) + 1
             \<and> (\<forall>i<j. unique_id (agents m' ! i) < unique_id (agents m' ! j))"
    if j: "length (agents m) \<le> j" "j < length (agents m')" for j
  proof -
    from j len have "0 < ?n" by linarith
    then have "dead_firms m consumption_firm \<noteq> [] \<or> dead_firms m capital_firm \<noteq> []" by auto
    then obtain r g where "r \<in> set (dead_firms m g)"
      by (metis list.set_intros(1) neq_Nil_conv)
    then have "agents m \<noteq> []" by (auto simp: mem_dead_firms)
    then have ne: "?ids \<noteq> []" by simp
    have j': "length ?ids \<le> j" "j < length ?ids'" using j by simp_all
    note f = fresh_ids [OF ids' j' ne]
    have "?ids' ! j = unique_id (agents m' ! j)" using j by simp
    moreover have "Max (set (take j ?ids')) = top_id (take j (agents m'))"
      by (simp add: top_id_def take_map)
    moreover have "\<forall>i<j. ?ids' ! i = unique_id (agents m' ! i)" using j by simp
    ultimately show ?thesis using f by simp
  qed
  have "length (agents m) \<le> length (agents m')" using len by simp
  then show ?thesis using keep new by blast
qed

theorem exit_and_entry_fresh_ids_witness:
  "(\<exists>m'. exit_and_entry blank_firm crisis_economy = Inr m'
          \<and> length (agents crisis_economy) = 4 \<and> length (agents m') = 6
          \<and> map unique_id (agents m') = [0, 1, 2, 3, 4, 5]
          \<and> unique_id (agents m' ! 4) = top_id (take 4 (agents m')) + 1
          \<and> unique_id (agents m' ! 5) = top_id (take 5 (agents m')) + 1)"
proof -
  let ?m' = "crisis_economy\<lparr>agents :=
        [example_agents ! 0, (example_agents ! 1)\<lparr>bankrupt := True\<rparr>, example_agents ! 2,
         (example_agents ! 3)\<lparr>bankrupt := True\<rparr>,
         (blank_firm consumption_firm)\<lparr>unique_id := 4, liquid_assets := 10, market_share := 1/2,
            capital_stock := Some 4\<rparr>,
         (blank_firm capital_firm)\<lparr>unique_id := 5, liquid_assets := 7, market_share := 1,
            machine := \<lparr>labour_productivity_coefficient = 3, machine.price = 9\<rparr>\<rparr>],
        draws := 2\<rparr>"
  have len: "length (agents crisis_economy) = 4" "length (agents ?m') = 6"
    by (simp_all add: crisis_economy_def example_economy_def example_agents_def)
  have ids: "map unique_id (agents ?m') = [0, 1, 2, 3, 4, 5]"
    by (simp add: example_agents_def blank_firm_def)
  from exit_and_entry_fresh_ids [OF crisis_run]
  have fresh: "\<forall>j. length (agents crisis_economy) \<le> j \<and> j < length (agents ?m') \<longrightarrow>
          unique_id (agents ?m' ! j) = top_id (take j (agents ?m')) + 1"
    by blast
  have four: "unique_id (agents ?m' ! 4) = top_id (take 4 (agents ?m')) + 1"
    by (rule fresh [THEN spec, THEN mp]) (simp add: len)
  have five: "unique_id (agents ?m' ! 5) = top_id (take 5 (agents ?m')) + 1"
    by (rule fresh [THEN spec, THEN mp]) (simp add: len)
  show ?thesis
  proof (intro exI [of _ ?m'] conjI)
    show "exit_and_entry blank_firm crisis_economy = Inr ?m'" by (rule crisis_run)
    show "length (agents crisis_economy) = 4" by (rule len(1))
    show "length (agents ?m') = 6" by (rule len(2))
    show "map unique_id (agents ?m') = [0, 1, 2, 3, 4, 5]" by (rule ids)
    show "unique_id (agents ?m' ! 4) = top_id (take 4 (agents ?m')) + 1" by (rule four)
    show "unique_id (agents ?m' ! 5) = top_id (take 5 (agents ?m')) + 1" by (rule five)
  qed
qed



end
